theory Spec2Isabelle
  imports Main "HOL-Library.AList"
begin

section \<open>Outbound link tracking: the data\<close>

text \<open>
  The development embeds \<^verbatim>\<open>lib/plugins/outbound-link-tracker.js\<close>. JavaScript objects
  become records, \<^verbatim>\<open>undefined\<close> instance fields become \<open>None\<close>, a thrown exception
  becomes a value of \<open>error\<close>, and everything the plugin mutates (its own fields, the
  document's listeners, the browser's timers, the tracker's queue of hits) lives in one
  explicit \<open>state\<close>.
\<close>

text \<open>
  A field value of a hit is a string, or a reference to a hit callback closure
  (the index of the closure in the state).
\<close>

datatype jsval = Str string | Fn nat

type_synonym fields = "string \<rightharpoonup> jsval"

text \<open>An anchor element: the properties the plugin reads or writes.\<close>

record link =
  href :: string
  target :: string
  attributes :: "(string \<times> string) list"

text \<open>
  A DOM event: the properties the plugin reads (\<open>etype\<close> is \<^verbatim>\<open>event.type\<close>), and the flag
  \<^verbatim>\<open>preventDefault()\<close> sets.
\<close>

record event =
  etype :: string
  ctrlKey :: bool
  shiftKey :: bool
  metaKey :: bool
  which :: nat
  defaultPrevented :: bool

text \<open>What \<^verbatim>\<open>parseUrl\<close> returns, as far as the plugin looks at it.\<close>

record url =
  hostname :: string
  protocol :: string

text \<open>
  \<open>TypeError x\<close>: the property \<open>x\<close> of the instance was \<^verbatim>\<open>undefined\<close> when the code
  dereferenced it. \<open>Thrown m\<close>: an exception raised by the field composition.
\<close>

datatype error = TypeError string | Thrown string

type_synonym hitFilter = "fields \<Rightarrow> link \<Rightarrow> error + fields"

text \<open>
  \<^verbatim>\<open>this.opts\<close> after the merge with the defaults. The field \<open>shouldTrack\<close> is the option
  the source calls \<^verbatim>\<open>shouldTrackOutboundLink\<close>; \<open>fallback\<close> is \<open>None\<close> for a value that is
  not a string (\<^verbatim>\<open>false\<close>, \<^verbatim>\<open>null\<close>).
\<close>

record opts =
  events :: "string list"
  linkSelector :: string
  shouldTrack :: "link \<Rightarrow> (string \<Rightarrow> url) \<Rightarrow> bool"
  fieldsObj :: fields
  attributePrefix :: string
  hitFilter :: "hitFilter option"
  fallback :: "string option"
  fallbackWait :: nat

text \<open>The options object given to the constructor: every key may be absent.\<close>

record overlay =
  ov_events :: "string list option"
  ov_linkSelector :: "string option"
  ov_shouldTrack :: "(link \<Rightarrow> (string \<Rightarrow> url) \<Rightarrow> bool) option"
  ov_fieldsObj :: "fields option"
  ov_attributePrefix :: "string option"
  ov_hitFilter :: "hitFilter option option"
  ov_fallback :: "string option option"
  ov_fallbackWait :: "nat option"

text \<open>
  The environment: the globals and the helpers whose code is outside the sources.
  \<^item> \<open>addEventListener\<close>, \<open>sendBeacon\<close>: whether \<^verbatim>\<open>window.addEventListener\<close> and
    \<^verbatim>\<open>navigator.sendBeacon\<close> exist;
  \<^item> \<open>location_hostname\<close>: \<^verbatim>\<open>location.hostname\<close>;
  \<^item> \<open>parseUrl\<close>: \<^verbatim>\<open>dom-utils/lib/parse-url\<close>;
  \<^item> \<open>matches\<close>: whether a selector selects an element (inside \<^verbatim>\<open>delegate\<close>);
  \<^item> \<open>getAttributeFields\<close>, \<open>createFieldsObj\<close>: the two helpers of \<^verbatim>\<open>../utilities\<close>, taken
    as parameters. The composition may throw, hence its sum type.
\<close>

record env =
  addEventListener :: bool
  sendBeacon :: bool
  location_hostname :: string
  parseUrl :: "string \<Rightarrow> url"
  matches :: "link \<Rightarrow> string \<Rightarrow> bool"
  getAttributeFields :: "link \<Rightarrow> string \<Rightarrow> fields"
  createFieldsObj :: "fields \<Rightarrow> fields \<Rightarrow> nat \<Rightarrow> hitFilter option \<Rightarrow> link \<Rightarrow> error + fields"

text \<open>A pending timer: its handle, the closure it will call, the time it is due.\<close>

type_synonym timer = "nat \<times> nat \<times> nat"

text \<open>
  The state.
  \<^item> \<open>opts\<close>, \<open>tracker\<close>, \<open>delegates\<close>, \<open>fallbackTimeout\<close>: the instance fields
    (\<open>None\<close> is \<^verbatim>\<open>undefined\<close>); \<open>delegates\<close> maps an event name to a delegate, in
    insertion order;
  \<^item> \<open>usage\<close>: the trackers on which \<^verbatim>\<open>usage.track\<close> recorded the plugin;
  \<^item> \<open>listeners\<close>: the delegated listeners attached to the document (delegate, event
    name, selector), \<open>next_delegate\<close> the next fresh delegate;
  \<^item> \<open>now\<close>, \<open>timers\<close>, \<open>next_timer\<close>: the clock in milliseconds, the pending timers in
    creation order, the next fresh handle;
  \<^item> \<open>closures\<close>: the closures made by \<^verbatim>\<open>createHitCallback\<close>, each with the link it
    captured and its \<^verbatim>\<open>hitCallbackHasRun\<close> variable;
  \<^item> \<open>location\<close>: the assignments to \<^verbatim>\<open>document.location\<close>, oldest first;
  \<^item> \<open>sent\<close>: the calls of \<^verbatim>\<open>tracker.send\<close>, oldest first.
\<close>

record state =
  opts :: "opts option"
  tracker :: "nat option"
  delegates :: "(string \<times> nat) list option"
  fallbackTimeout :: "nat option"
  usage :: "nat list"
  listeners :: "(nat \<times> string \<times> string) list"
  next_delegate :: nat
  now :: nat
  timers :: "timer list"
  next_timer :: nat
  closures :: "(link \<times> bool) list"
  location :: "string list"
  sent :: "(string \<times> fields) list"

text \<open>What a call of the handler leaves behind: the exception, if one escaped, and the
  event, the link element and the state as the call left them.\<close>

record outcome =
  out_error :: "error option"
  out_event :: event
  out_link :: link
  out_state :: state

section \<open>The default predicate\<close>

text \<open>
  \<^verbatim>\<open>url.hostname != location.hostname && url.protocol.slice(0, 4) == 'http'\<close>; the first
  argument is \<^verbatim>\<open>location.hostname\<close>.
\<close>

definition shouldTrackOutboundLink :: "string \<Rightarrow> link \<Rightarrow> (string \<Rightarrow> url) \<Rightarrow> bool" where
  "shouldTrackOutboundLink host l parse =
     (let u = parse (href l)
      in hostname u \<noteq> host \<and> take 4 (protocol u) = ''http'')"

text \<open>The spec's reading of the second conjunct: the scheme is http or https.\<close>

definition spec_http_or_https :: "string \<Rightarrow> bool" where
  "spec_http_or_https p = (p = ''http:'' \<or> p = ''https:'')"

section \<open>Timers and hit callbacks\<close>

definition setTimeout :: "nat \<Rightarrow> nat \<Rightarrow> state \<Rightarrow> nat \<times> state" where
  "setTimeout c delay s =
     (next_timer s,
      s\<lparr>timers := timers s @ [(next_timer s, c, now s + delay)],
        next_timer := Suc (next_timer s)\<rparr>)"

text \<open>\<^verbatim>\<open>clearTimeout(h)\<close>: nothing happens for \<^verbatim>\<open>undefined\<close> or a handle that is not pending.\<close>

definition clearTimeout :: "nat option \<Rightarrow> timer list \<Rightarrow> timer list" where
  "clearTimeout h ts =
     (case h of None \<Rightarrow> ts | Some i \<Rightarrow> filter (\<lambda>t. fst t \<noteq> i) ts)"

text \<open>
  \<^verbatim>\<open>createHitCallback(link)\<close> allocates a closure with \<^verbatim>\<open>hitCallbackHasRun = false\<close> and
  returns it. The closure keeps the link element; all it reads of it later is the href,
  which nothing here changes.
\<close>

definition createHitCallback :: "link \<Rightarrow> state \<Rightarrow> nat \<times> state" where
  "createHitCallback l s =
     (length (closures s), s\<lparr>closures := closures s @ [(l, False)]\<rparr>)"

text \<open>
  A call of the closure \<open>c\<close>. The timer it clears is the one \<^verbatim>\<open>this.fallbackTimeout\<close> holds
  at the time of the call. \<^verbatim>\<open>document.location = link\<close> converts the anchor to a string,
  its \<^verbatim>\<open>href\<close>.
\<close>

definition hitCallback :: "nat \<Rightarrow> state \<Rightarrow> state" where
  "hitCallback c s =
     (if c < length (closures s) then
        (case closures s ! c of
           (l, hitCallbackHasRun) \<Rightarrow>
             if hitCallbackHasRun then s
             else s\<lparr>timers := clearTimeout (fallbackTimeout s) (timers s),
                    closures := (closures s)[c := (l, True)],
                    location := location s @ [href l]\<rparr>)
      else s)"

section \<open>The handler\<close>

text \<open>ASCII case folding, as the \<^verbatim>\<open>i\<close> flag of a regular expression without the \<^verbatim>\<open>u\<close> flag.\<close>

definition toLower :: "char \<Rightarrow> char" where
  "toLower ch =
     (case map_of (zip ''ABCDEFGHIJKLMNOPQRSTUVWXYZ'' ''abcdefghijklmnopqrstuvwxyz'') ch of
        Some d \<Rightarrow> d
      | None \<Rightarrow> ch)"

text \<open>\<^verbatim>\<open>link.target.match(/^_(self|parent|top)$/i)\<close>\<close>

definition reserved_target :: "string \<Rightarrow> bool" where
  "reserved_target t =
     (let t' = map toLower t in t' = ''_self'' \<or> t' = ''_parent'' \<or> t' = ''_top'')"

text \<open>
  The variable \<^verbatim>\<open>target\<close> after lines 87 to 93: \<open>None\<close> is \<^verbatim>\<open>false\<close>.
\<close>

definition nav_target :: "event \<Rightarrow> link \<Rightarrow> string option" where
  "nav_target e l =
     (let target0 = (if target l \<noteq> [] \<and> \<not> reserved_target (target l)
                     then Some (target l) else None)
      in if ctrlKey e \<or> shiftKey e \<or> metaKey e \<or> which e = 2
         then Some ''_blank'' else target0)"

text \<open>JavaScript truthiness of a string or \<^verbatim>\<open>false\<close>.\<close>

definition truthy :: "string option \<Rightarrow> bool" where
  "truthy v = (case v of None \<Rightarrow> False | Some x \<Rightarrow> x \<noteq> [])"

definition defaultFields :: "event \<Rightarrow> link \<Rightarrow> fields" where
  "defaultFields e l =
     [''transport'' \<mapsto> Str ''beacon'',
      ''eventCategory'' \<mapsto> Str ''Outbound Link'',
      ''eventAction'' \<mapsto> Str (etype e),
      ''eventLabel'' \<mapsto> Str (href l)]"

text \<open>\<^verbatim>\<open>assign({}, this.opts.fieldsObj, getAttributeFields(link, this.opts.attributePrefix))\<close>\<close>

definition userFields :: "env \<Rightarrow> opts \<Rightarrow> link \<Rightarrow> fields" where
  "userFields env cfg l = fieldsObj cfg ++ getAttributeFields env l (attributePrefix cfg)"

text \<open>
  Lines 95 to 109: the fallback. It returns the default fields, the event, the link and
  the state as the block leaves them.
\<close>

definition fallback_block ::
  "env \<Rightarrow> opts \<Rightarrow> string option \<Rightarrow> fields \<Rightarrow> event \<Rightarrow> link \<Rightarrow> state
     \<Rightarrow> fields \<times> event \<times> link \<times> state" where
  "fallback_block env cfg tgt dflt e l s =
     (if \<not> sendBeacon env \<and> truthy (fallback cfg) then
        if fallback cfg = Some ''_blank'' then
          (dflt, e, l\<lparr>target := ''_blank''\<rparr>, s)
        else if fallback cfg = Some ''wait'' \<and> \<not> truthy tgt then
          (let e1 = e\<lparr>defaultPrevented := True\<rparr>;
               (c, s1) = createHitCallback l s;
               dflt1 = dflt(''hitCallback'' \<mapsto> Fn c);
               (h, s2) = setTimeout c (fallbackWait cfg) s1
           in (dflt1, e1, l, s2\<lparr>fallbackTimeout := Some h\<rparr>))
        else (dflt, e, l, s)
      else (dflt, e, l, s))"

text \<open>
  \<^verbatim>\<open>handleLinkInteractions(event, link)\<close>. Reading a property of an undefined
  \<^verbatim>\<open>this.opts\<close> or \<^verbatim>\<open>this.tracker\<close> throws; the argument of \<^verbatim>\<open>send\<close> is evaluated before the
  call, so a composition that throws leaves the hit unsent and the exception escapes
  with everything before it done.
\<close>

definition handleLinkInteractions :: "env \<Rightarrow> event \<Rightarrow> link \<Rightarrow> state \<Rightarrow> outcome" where
  "handleLinkInteractions env e l s =
     (case opts s of
        None \<Rightarrow> \<lparr>out_error = Some (TypeError ''opts''), out_event = e, out_link = l,
                  out_state = s\<rparr>
      | Some cfg \<Rightarrow>
          if shouldTrack cfg l (parseUrl env) then
            (case fallback_block env cfg (nav_target e l) (defaultFields e l) e l s of
               (dflt, e', l', s') \<Rightarrow>
                 (case tracker s' of
                    None \<Rightarrow> \<lparr>out_error = Some (TypeError ''tracker''), out_event = e',
                              out_link = l', out_state = s'\<rparr>
                  | Some tr \<Rightarrow>
                      (case createFieldsObj env dflt (userFields env cfg l) tr (hitFilter cfg) l' of
                         Inl x \<Rightarrow> \<lparr>out_error = Some x, out_event = e', out_link = l',
                                    out_state = s'\<rparr>
                       | Inr f \<Rightarrow> \<lparr>out_error = None, out_event = e', out_link = l',
                                    out_state = s'\<lparr>sent := sent s' @ [(''event'', f)]\<rparr>\<rparr>)))
          else \<lparr>out_error = None, out_event = e, out_link = l, out_state = s\<rparr>)"

section \<open>Construction and teardown\<close>

text \<open>
  The event delegation of \<^verbatim>\<open>dom-utils/lib/delegate\<close>, a library outside the sources:
  \<^verbatim>\<open>delegate(document, event, selector, handler, options)\<close> attaches a listener to the
  document and returns an object whose \<^verbatim>\<open>destroy()\<close> detaches that listener.
\<close>

definition delegate :: "string \<Rightarrow> string \<Rightarrow> state \<Rightarrow> nat \<times> state" where
  "delegate name selector s =
     (next_delegate s,
      s\<lparr>listeners := listeners s @ [(next_delegate s, name, selector)],
        next_delegate := Suc (next_delegate s)\<rparr>)"

definition destroy :: "nat \<Rightarrow> state \<Rightarrow> state" where
  "destroy d s = s\<lparr>listeners := filter (\<lambda>x. fst x \<noteq> d) (listeners s)\<rparr>"

text \<open>
  \<^verbatim>\<open>obj[key] = value\<close> on an object made by \<^verbatim>\<open>{}\<close>, for a value that is an object: an
  existing own key keeps its place and takes the new value, a new key is added last,
  and the key \<^verbatim>\<open>__proto__\<close> reaches the setter inherited from \<^verbatim>\<open>Object.prototype\<close>, which
  changes the prototype and adds no own key.
\<close>

definition set_property :: "string \<Rightarrow> nat \<Rightarrow> (string \<times> nat) list \<Rightarrow> (string \<times> nat) list" where
  "set_property k v obj = (if k = ''__proto__'' then obj else AList.update k v obj)"

text \<open>\<^verbatim>\<open>assign({events: ['click'], ...}, opts)\<close>: a key of the overlay wins over the default.\<close>

definition assign_opts :: "env \<Rightarrow> overlay \<Rightarrow> opts" where
  "assign_opts env ov =
     \<lparr>events = (case ov_events ov of None \<Rightarrow> [''click''] | Some v \<Rightarrow> v),
      linkSelector = (case ov_linkSelector ov of None \<Rightarrow> ''a'' | Some v \<Rightarrow> v),
      shouldTrack = (case ov_shouldTrack ov of
                       None \<Rightarrow> shouldTrackOutboundLink (location_hostname env)
                     | Some v \<Rightarrow> v),
      fieldsObj = (case ov_fieldsObj ov of None \<Rightarrow> Map.empty | Some v \<Rightarrow> v),
      attributePrefix = (case ov_attributePrefix ov of None \<Rightarrow> ''ga-'' | Some v \<Rightarrow> v),
      hitFilter = (case ov_hitFilter ov of None \<Rightarrow> None | Some v \<Rightarrow> v),
      fallback = (case ov_fallback ov of None \<Rightarrow> Some ''_blank'' | Some v \<Rightarrow> v),
      fallbackWait = (case ov_fallbackWait ov of None \<Rightarrow> 500 | Some v \<Rightarrow> v)\<rparr>"

text \<open>The body of the \<^verbatim>\<open>forEach\<close> of the constructor, for one event name.\<close>

definition register :: "string \<Rightarrow> state \<Rightarrow> string \<Rightarrow> state" where
  "register selector s name =
     (case delegate name selector s of
        (d, s1) \<Rightarrow> s1\<lparr>delegates := map_option (set_property name d) (delegates s1)\<rparr>)"

text \<open>
  \<^verbatim>\<open>new OutboundLinkTracker(tracker, opts)\<close> on a page in state \<open>s\<close>. The object is fresh:
  none of its fields is assigned when the body starts. \<^verbatim>\<open>usage.track\<close> comes first, then
  the feature test, which returns before any field is assigned.
\<close>

definition OutboundLinkTracker :: "env \<Rightarrow> nat \<Rightarrow> overlay \<Rightarrow> state \<Rightarrow> state" where
  "OutboundLinkTracker env tr ov s =
     (let s0 = s\<lparr>opts := None, tracker := None, delegates := None, fallbackTimeout := None,
                  usage := usage s @ [tr]\<rparr>
      in if \<not> addEventListener env then s0
         else
           (let cfg = assign_opts env ov;
                s1 = s0\<lparr>opts := Some cfg, tracker := Some tr, delegates := Some []\<rparr>
            in foldl (register (linkSelector cfg)) s1 (events cfg)))"

text \<open>
  \<^verbatim>\<open>remove()\<close>: \<^verbatim>\<open>Object.keys\<close> of \<^verbatim>\<open>undefined\<close> throws; otherwise every own key's delegate
  is destroyed. \<^verbatim>\<open>Object.keys\<close> lists keys that look like array indices before the others;
  the list here is in insertion order, which gives the same state, since the calls of
  \<^verbatim>\<open>destroy()\<close> commute.
\<close>

definition remove :: "state \<Rightarrow> error option \<times> state" where
  "remove s =
     (case delegates s of
        None \<Rightarrow> (Some (TypeError ''delegates''), s)
      | Some ds \<Rightarrow> (None, foldl (\<lambda>s' kd. destroy (snd kd) s') s ds))"

section \<open>The page at work\<close>

text \<open>
  An event of type \<open>etype e\<close> on the element \<open>l\<close> reaches every listener attached to
  the document for that type whose selector selects \<open>l\<close>, in the order of
  attachment. An exception that escapes a listener is reported by the browser and
  does not stop the others.
\<close>

definition dispatch :: "env \<Rightarrow> event \<Rightarrow> link \<Rightarrow> state \<Rightarrow> event \<times> link \<times> state" where
  "dispatch env e l s =
     foldl (\<lambda>(e', l', s') (d, name, selector).
              if name = etype e \<and> matches env l' selector then
                (let r = handleLinkInteractions env e' l' s'
                 in (out_event r, out_link r, out_state r))
              else (e', l', s'))
       (e, l, s) (listeners s)"

text \<open>The due timer that fires next: the earliest, and among equals the oldest.\<close>

fun next_due :: "nat \<Rightarrow> timer list \<Rightarrow> timer option" where
  "next_due t [] = None"
| "next_due t (x # xs) =
     (case next_due t xs of
        None \<Rightarrow> if snd (snd x) \<le> t then Some x else None
      | Some y \<Rightarrow> if snd (snd x) \<le> snd (snd y) then Some x else Some y)"

text \<open>
  The clock runs to \<open>t\<close>: the timers due by then fire one after the other, each removed
  from the pending ones before its closure is called.
\<close>

function elapse_to :: "nat \<Rightarrow> state \<Rightarrow> state" where
  "elapse_to t s =
     (case next_due t (timers s) of
        None \<Rightarrow> s\<lparr>now := max (now s) t\<rparr>
      | Some (h, c, d) \<Rightarrow>
          elapse_to t (hitCallback c (s\<lparr>now := max (now s) d,
                                        timers := filter (\<lambda>x. fst x \<noteq> h) (timers s)\<rparr>)))"
  by pat_completeness auto
termination
proof (relation "measure (\<lambda>(t, s). length (timers s))")
  show "wf (measure (\<lambda>(t, s). length (timers s)))" by simp
next
  fix t :: nat and s :: state and x2 :: timer and h y c d
  assume due: "next_due t (timers s) = Some x2" and x2: "(h, y) = x2"
  have mem: "\<And>ts x. next_due t ts = Some x \<Longrightarrow> x \<in> set ts"
  proof -
    fix ts :: "timer list" and x
    show "next_due t ts = Some x \<Longrightarrow> x \<in> set ts"
      by (induction ts arbitrary: x) (auto split: option.splits if_splits)
  qed
  have "(h, y) \<in> set (timers s)" using mem [OF due] x2 by simp
  then have less: "length (filter (\<lambda>x. fst x \<noteq> h) (timers s)) < length (timers s)"
    by (intro length_filter_less [where x = "(h, y)"]) auto
  have shrink: "\<And>c' s'. length (timers (hitCallback c' s')) \<le> length (timers s')"
    by (auto simp: hitCallback_def clearTimeout_def split: prod.splits option.splits)
  assume "(c, d) = y"
  show "((t, hitCallback c (s\<lparr>now := max (now s) d,
                              timers := filter (\<lambda>x. fst x \<noteq> h) (timers s)\<rparr>)), t, s)
        \<in> measure (\<lambda>(t, s). length (timers s))"
    using less shrink [of c "s\<lparr>now := max (now s) d,
                               timers := filter (\<lambda>x. fst x \<noteq> h) (timers s)\<rparr>"]
    by simp
qed

declare elapse_to.simps [simp del]

text \<open>
  What happens on the page: an event on a link, the analytics library calling the
  \<^verbatim>\<open>hitCallback\<close> field of a hit it has sent, time passing.
\<close>

datatype action = Interact event link | HitSent nat | Elapse nat

fun step :: "env \<Rightarrow> state \<Rightarrow> action \<Rightarrow> state" where
  "step env s (Interact e l) = snd (snd (dispatch env e l s))"
| "step env s (HitSent c) = hitCallback c s"
| "step env s (Elapse n) = elapse_to (now s + n) s"

definition run :: "env \<Rightarrow> action list \<Rightarrow> state \<Rightarrow> state" where
  "run env as s = foldl (step env) s as"

text \<open>The closure \<open>c\<close>, made for the link \<open>l\<close>, has run its body.\<close>

definition has_run :: "nat \<Rightarrow> link \<Rightarrow> state \<Rightarrow> bool" where
  "has_run c l s \<longleftrightarrow> c < length (closures s) \<and> closures s ! c = (l, True)"

text \<open>A page on which nothing has happened yet.\<close>

definition fresh_page :: state where
  "fresh_page =
     \<lparr>opts = None, tracker = None, delegates = None, fallbackTimeout = None, usage = [],
      listeners = [], next_delegate = 0, now = 0, timers = [], next_timer = 1,
      closures = [], location = [], sent = []\<rparr>"

section \<open>A sample page\<close>

text \<open>
  The concrete values the theorems are tried on. The page is \<^verbatim>\<open>example.com\<close>; the parser
  knows three foreign addresses; the composition merges the default fields with the
  user's and then lets the hit filter, if there is one, change the result or throw;
  the filter \<open>veto\<close> always throws.
\<close>

definition example_parse :: "string \<Rightarrow> url" where
  "example_parse h =
     (if h = ''https://a.example/'' then \<lparr>hostname = ''a.example'', protocol = ''https:''\<rparr>
      else if h = ''https://b.example/'' then \<lparr>hostname = ''b.example'', protocol = ''https:''\<rparr>
      else if h = ''httpx://c.example/'' then \<lparr>hostname = ''c.example'', protocol = ''httpx:''\<rparr>
      else \<lparr>hostname = ''example.com'', protocol = ''https:''\<rparr>)"

definition merge_then_filter ::
  "fields \<Rightarrow> fields \<Rightarrow> nat \<Rightarrow> hitFilter option \<Rightarrow> link \<Rightarrow> error + fields" where
  "merge_then_filter d u tr hf l = (case hf of None \<Rightarrow> Inr (d ++ u) | Some f \<Rightarrow> f (d ++ u) l)"

definition veto :: hitFilter where
  "veto f l = Inl (Thrown ''veto'')"

definition example_env :: "bool \<Rightarrow> env" where
  "example_env beacon =
     \<lparr>addEventListener = True, sendBeacon = beacon, location_hostname = ''example.com'',
      parseUrl = example_parse, matches = (\<lambda>l sel. sel = ''a''),
      getAttributeFields = (\<lambda>l p. Map.empty), createFieldsObj = merge_then_filter\<rparr>"

definition wait_overlay :: "hitFilter option \<Rightarrow> overlay" where
  "wait_overlay hf =
     \<lparr>ov_events = None, ov_linkSelector = None, ov_shouldTrack = None, ov_fieldsObj = None,
      ov_attributePrefix = None, ov_hitFilter = Some hf, ov_fallback = Some (Some ''wait''),
      ov_fallbackWait = None\<rparr>"

definition click :: event where
  "click = \<lparr>etype = ''click'', ctrlKey = False, shiftKey = False, metaKey = False, which = 1,
            defaultPrevented = False\<rparr>"

definition link_a :: link where
  "link_a = \<lparr>href = ''https://a.example/'', target = [], attributes = []\<rparr>"

definition link_b :: link where
  "link_b = \<lparr>href = ''https://b.example/'', target = [], attributes = []\<rparr>"

definition link_home :: link where
  "link_home = \<lparr>href = ''https://example.com/about'', target = [], attributes = []\<rparr>"

definition wait_page :: "hitFilter option \<Rightarrow> state" where
  "wait_page hf = OutboundLinkTracker (example_env False) 0 (wait_overlay hf) fresh_page"

text \<open>
  The sample page after a plain click on the first foreign link at 0 ms and one on the
  second at 100 ms, with nothing else in between.
\<close>

definition page_after_two_clicks :: state where
  "page_after_two_clicks =
     run (example_env False) [Interact click link_a, Elapse 100, Interact click link_b]
       (wait_page None)"

section \<open>The handler, case by case\<close>

lemmas example_defs =
  example_parse_def merge_then_filter_def veto_def example_env_def wait_overlay_def click_def
  link_a_def link_b_def link_home_def wait_page_def fresh_page_def OutboundLinkTracker_def assign_opts_def
  register_def delegate_def set_property_def shouldTrackOutboundLink_def

lemmas handler_defs =
  dispatch_def handleLinkInteractions_def fallback_block_def nav_target_def truthy_def
  createHitCallback_def setTimeout_def defaultFields_def userFields_def hitCallback_def
  clearTimeout_def elapse_to.simps remove_def destroy_def

lemma nav_target_None:
  "nav_target e l = None \<longleftrightarrow>
     (target l = [] \<or> reserved_target (target l))
     \<and> \<not> (ctrlKey e \<or> shiftKey e \<or> metaKey e \<or> which e = 2)"
  by (simp add: nav_target_def)

lemma truthy_nav_target: "truthy (nav_target e l) \<longleftrightarrow> nav_target e l \<noteq> None"
  by (auto simp: nav_target_def truthy_def)

lemma fallback_block_wait:
  assumes "\<not> sendBeacon env" and "fallback cfg = Some ''wait''" and "\<not> truthy tgt"
  shows "fallback_block env cfg tgt dflt e l s =
           (dflt(''hitCallback'' \<mapsto> Fn (length (closures s))),
            e\<lparr>defaultPrevented := True\<rparr>, l,
            s\<lparr>closures := closures s @ [(l, False)],
              timers := timers s @ [(next_timer s, length (closures s), now s + fallbackWait cfg)],
              next_timer := Suc (next_timer s),
              fallbackTimeout := Some (next_timer s)\<rparr>)"
  using assms by (simp add: fallback_block_def truthy_def createHitCallback_def setTimeout_def)

lemma fallback_block_other:
  assumes "\<not> (\<not> sendBeacon env \<and> fallback cfg = Some ''wait'' \<and> \<not> truthy tgt)"
  shows "fallback_block env cfg tgt dflt e l s =
           (dflt, e,
            if \<not> sendBeacon env \<and> fallback cfg = Some ''_blank'' then l\<lparr>target := ''_blank''\<rparr> else l,
            s)"
  using assms by (auto simp: fallback_block_def) (auto simp: truthy_def)

lemma handle_wait:
  assumes "opts s = Some cfg" and "tracker s = Some tr" and "shouldTrack cfg l (parseUrl env)"
    and "\<not> sendBeacon env" and "fallback cfg = Some ''wait''" and "nav_target e l = None"
  shows "handleLinkInteractions env e l s =
     (let c = length (closures s);
          s' = s\<lparr>closures := closures s @ [(l, False)],
                 timers := timers s @ [(next_timer s, c, now s + fallbackWait cfg)],
                 next_timer := Suc (next_timer s),
                 fallbackTimeout := Some (next_timer s)\<rparr>
      in case createFieldsObj env ((defaultFields e l)(''hitCallback'' \<mapsto> Fn c))
                (userFields env cfg l) tr (hitFilter cfg) l of
           Inl x \<Rightarrow> \<lparr>out_error = Some x, out_event = e\<lparr>defaultPrevented := True\<rparr>,
                      out_link = l, out_state = s'\<rparr>
         | Inr f \<Rightarrow> \<lparr>out_error = None, out_event = e\<lparr>defaultPrevented := True\<rparr>,
                      out_link = l, out_state = s'\<lparr>sent := sent s @ [(''event'', f)]\<rparr>\<rparr>)"
proof -
  have t: "\<not> truthy (nav_target e l)" using assms(6) by (simp add: truthy_def)
  show ?thesis
    using assms(1-3)
    by (simp add: handleLinkInteractions_def fallback_block_wait [OF assms(4,5) t] Let_def
        split: sum.splits)
qed

lemma handle_other:
  assumes "opts s = Some cfg" and "tracker s = Some tr" and "shouldTrack cfg l (parseUrl env)"
    and "\<not> (\<not> sendBeacon env \<and> fallback cfg = Some ''wait'' \<and> nav_target e l = None)"
  shows "handleLinkInteractions env e l s =
     (let l' = (if \<not> sendBeacon env \<and> fallback cfg = Some ''_blank''
                then l\<lparr>target := ''_blank''\<rparr> else l)
      in case createFieldsObj env (defaultFields e l) (userFields env cfg l) tr (hitFilter cfg) l' of
           Inl x \<Rightarrow> \<lparr>out_error = Some x, out_event = e, out_link = l', out_state = s\<rparr>
         | Inr f \<Rightarrow> \<lparr>out_error = None, out_event = e, out_link = l',
                      out_state = s\<lparr>sent := sent s @ [(''event'', f)]\<rparr>\<rparr>)"
proof -
  have t: "\<not> (\<not> sendBeacon env \<and> fallback cfg = Some ''wait'' \<and> \<not> truthy (nav_target e l))"
    using assms(4) by (simp add: truthy_nav_target)
  show ?thesis
    using assms(1-3)
    by (simp add: handleLinkInteractions_def fallback_block_other [OF t] Let_def
        split: sum.splits)
qed

section \<open>The wait fallback\<close>

text \<open>
  C1. Let an interaction pass \<open>shouldTrack\<close>. If the beacon transport is missing, the
  fallback is \<open>wait\<close>, the link's target is empty or one of the reserved frame names, and
  the event has no modifier key and is no middle click, then the handler prevents the
  default action, makes a new hit callback \<open>c\<close>, gives the default fields the entry
  \<open>hitCallback = c\<close>, and starts a timer that calls \<open>c\<close> at \<open>now + fallbackWait\<close>,
  keeping its handle in \<open>fallbackTimeout\<close>. In every other case the event's flag, the
  closures, the timers and \<open>fallbackTimeout\<close> are as before and the default fields have
  no \<open>hitCallback\<close>. In both cases the composition is called on these default fields.
\<close>

theorem wait_fallback_engaged_iff:
  assumes "opts s = Some cfg" and "tracker s = Some tr" and "shouldTrack cfg l (parseUrl env)"
  shows "let engaged = (\<not> sendBeacon env \<and> fallback cfg = Some ''wait''
                        \<and> (target l = [] \<or> reserved_target (target l))
                        \<and> \<not> (ctrlKey e \<or> shiftKey e \<or> metaKey e \<or> which e = 2));
             r = handleLinkInteractions env e l s;
             c = length (closures s);
             h = next_timer s;
             dflt = (if engaged then (defaultFields e l)(''hitCallback'' \<mapsto> Fn c)
                     else defaultFields e l)
         in (if engaged
             then defaultPrevented (out_event r)
                \<and> closures (out_state r) = closures s @ [(l, False)]
                \<and> timers (out_state r) = timers s @ [(h, c, now s + fallbackWait cfg)]
                \<and> fallbackTimeout (out_state r) = Some h
             else defaultPrevented (out_event r) = defaultPrevented e
                \<and> closures (out_state r) = closures s
                \<and> timers (out_state r) = timers s
                \<and> fallbackTimeout (out_state r) = fallbackTimeout s
                \<and> defaultFields e l ''hitCallback'' = None)
          \<and> (case createFieldsObj env dflt (userFields env cfg l) tr (hitFilter cfg) (out_link r) of
                Inl x \<Rightarrow> out_error r = Some x \<and> sent (out_state r) = sent s
              | Inr f \<Rightarrow> out_error r = None \<and> sent (out_state r) = sent s @ [(''event'', f)])"
proof (cases "\<not> sendBeacon env \<and> fallback cfg = Some ''wait'' \<and> nav_target e l = None")
  case True
  then have eng: "\<not> sendBeacon env \<and> fallback cfg = Some ''wait''
        \<and> (target l = [] \<or> reserved_target (target l))
        \<and> \<not> (ctrlKey e \<or> shiftKey e \<or> metaKey e \<or> which e = 2)"
    by (simp add: nav_target_None)
  from True have w: "\<not> sendBeacon env" "fallback cfg = Some ''wait''" "nav_target e l = None"
    by simp_all
  show ?thesis
    unfolding Let_def handle_wait [OF assms w]
    using eng by (simp split: sum.splits)
next
  case False
  then have eng: "\<not> (\<not> sendBeacon env \<and> fallback cfg = Some ''wait''
        \<and> (target l = [] \<or> reserved_target (target l))
        \<and> \<not> (ctrlKey e \<or> shiftKey e \<or> metaKey e \<or> which e = 2))"
    by (simp add: nav_target_None)
  show ?thesis
    unfolding Let_def handle_other [OF assms False]
    using eng by (simp add: defaultFields_def split: sum.splits)
qed


theorem wait_fallback_engaged_iff_witness:
  "opts (wait_page None) = Some (assign_opts (example_env False) (wait_overlay None))
   \<and> tracker (wait_page None) = Some 0
   \<and> shouldTrack (assign_opts (example_env False) (wait_overlay None)) link_a
        (parseUrl (example_env False))
   \<and> defaultPrevented (out_event (handleLinkInteractions (example_env False) click link_a
        (wait_page None)))
   \<and> closures (out_state (handleLinkInteractions (example_env False) click link_a
        (wait_page None))) = [(link_a, False)]
   \<and> timers (out_state (handleLinkInteractions (example_env False) click link_a
        (wait_page None))) = [(1, 0, 500)]
   \<and> fallbackTimeout (out_state (handleLinkInteractions (example_env False) click link_a
        (wait_page None))) = Some 1
   \<and> \<not> defaultPrevented (out_event (handleLinkInteractions (example_env False)
        (click\<lparr>ctrlKey := True\<rparr>) link_a (wait_page None)))
   \<and> timers (out_state (handleLinkInteractions (example_env False)
        (click\<lparr>ctrlKey := True\<rparr>) link_a (wait_page None))) = []"
proof -
  have h1: "opts (wait_page None) = Some (assign_opts (example_env False) (wait_overlay None))"
    by (simp add: example_defs)
  have h2: "tracker (wait_page None) = Some 0"
    by (simp add: example_defs)
  have h3: "shouldTrack (assign_opts (example_env False) (wait_overlay None)) link_a
        (parseUrl (example_env False))"
    by (simp add: example_defs)
  show ?thesis
    using h1 h2 h3
      wait_fallback_engaged_iff [OF h1 h2 h3, of click]
      wait_fallback_engaged_iff [OF h1 h2 h3, of "click\<lparr>ctrlKey := True\<rparr>"]
    by (simp add: example_defs Let_def split: sum.splits)
qed

text \<open>
  C4. For a tracked interaction with the control, shift or meta key held, or with the
  middle button, the variable \<^verbatim>\<open>target\<close> is \<^verbatim>\<open>_blank\<close> whatever the link's own target
  is, and the wait fallback does nothing: the default action is not prevented, no
  closure and no timer is made, \<open>fallbackTimeout\<close> keeps its value, and the composition
  receives the default fields without a \<open>hitCallback\<close>.
\<close>

theorem modifier_click_forces_blank:
  assumes "ctrlKey e \<or> shiftKey e \<or> metaKey e \<or> which e = 2"
    and "opts s = Some cfg" and "tracker s = Some tr" and "shouldTrack cfg l (parseUrl env)"
  shows "let r = handleLinkInteractions env e l s
         in nav_target e l = Some ''_blank''
          \<and> defaultPrevented (out_event r) = defaultPrevented e
          \<and> closures (out_state r) = closures s
          \<and> timers (out_state r) = timers s
          \<and> fallbackTimeout (out_state r) = fallbackTimeout s
          \<and> (case createFieldsObj env (defaultFields e l) (userFields env cfg l) tr
                     (hitFilter cfg) (out_link r) of
                Inl x \<Rightarrow> out_error r = Some x \<and> sent (out_state r) = sent s
              | Inr f \<Rightarrow> out_error r = None \<and> sent (out_state r) = sent s @ [(''event'', f)])"
proof -
  have t: "nav_target e l = Some ''_blank''"
    using assms(1) by (auto simp: nav_target_def)
  then have "\<not> (\<not> sendBeacon env \<and> fallback cfg = Some ''wait'' \<and> nav_target e l = None)"
    by simp
  from handle_other [OF assms(2-4) this] t show ?thesis
    by (simp add: Let_def split: sum.splits)
qed

theorem modifier_click_forces_blank_witness:
  "shiftKey (click\<lparr>shiftKey := True\<rparr>)
   \<and> opts (wait_page None) = Some (assign_opts (example_env False) (wait_overlay None))
   \<and> tracker (wait_page None) = Some 0
   \<and> shouldTrack (assign_opts (example_env False) (wait_overlay None))
        (link_a\<lparr>target := ''_self''\<rparr>) (parseUrl (example_env False))
   \<and> nav_target (click\<lparr>shiftKey := True\<rparr>) (link_a\<lparr>target := ''_self''\<rparr>) = Some ''_blank''
   \<and> \<not> defaultPrevented (out_event (handleLinkInteractions (example_env False)
        (click\<lparr>shiftKey := True\<rparr>) (link_a\<lparr>target := ''_self''\<rparr>) (wait_page None)))
   \<and> closures (out_state (handleLinkInteractions (example_env False)
        (click\<lparr>shiftKey := True\<rparr>) (link_a\<lparr>target := ''_self''\<rparr>) (wait_page None))) = []
   \<and> timers (out_state (handleLinkInteractions (example_env False)
        (click\<lparr>shiftKey := True\<rparr>) (link_a\<lparr>target := ''_self''\<rparr>) (wait_page None))) = []
   \<and> fallbackTimeout (out_state (handleLinkInteractions (example_env False)
        (click\<lparr>shiftKey := True\<rparr>) (link_a\<lparr>target := ''_self''\<rparr>) (wait_page None))) = None"
proof -
  have h0: "ctrlKey (click\<lparr>shiftKey := True\<rparr>) \<or> shiftKey (click\<lparr>shiftKey := True\<rparr>)
      \<or> metaKey (click\<lparr>shiftKey := True\<rparr>) \<or> which (click\<lparr>shiftKey := True\<rparr>) = 2"
    by simp
  have h1: "opts (wait_page None) = Some (assign_opts (example_env False) (wait_overlay None))"
    by (simp add: example_defs)
  have h2: "tracker (wait_page None) = Some 0"
    by (simp add: example_defs)
  have h3: "shouldTrack (assign_opts (example_env False) (wait_overlay None))
        (link_a\<lparr>target := ''_self''\<rparr>) (parseUrl (example_env False))"
    by (simp add: example_defs)
  show ?thesis
    using h1 h2 h3 modifier_click_forces_blank [OF h0 h1 h2 h3]
    by (simp add: example_defs Let_def split: sum.splits)
qed

section \<open>Which interactions send a hit\<close>

text \<open>
  C7. When \<open>shouldTrack\<close> answers no, the handler returns without an exception and
  leaves the event, the link element and the whole state as they were: no hit, no
  change of the link's target, no prevented default action, no timer.
\<close>

theorem untracked_interaction_no_effects:
  assumes "opts s = Some cfg" and "\<not> shouldTrack cfg l (parseUrl env)"
  shows "handleLinkInteractions env e l s =
           \<lparr>out_error = None, out_event = e, out_link = l, out_state = s\<rparr>"
  using assms by (simp add: handleLinkInteractions_def)

theorem untracked_interaction_no_effects_witness:
  "opts (wait_page None) = Some (assign_opts (example_env False) (wait_overlay None))
   \<and> \<not> shouldTrack (assign_opts (example_env False) (wait_overlay None)) link_home
          (parseUrl (example_env False))
   \<and> handleLinkInteractions (example_env False) click link_home (wait_page None) =
        \<lparr>out_error = None, out_event = click, out_link = link_home, out_state = wait_page None\<rparr>"
proof -
  have h1: "opts (wait_page None) = Some (assign_opts (example_env False) (wait_overlay None))"
    by (simp add: example_defs)
  have h2: "\<not> shouldTrack (assign_opts (example_env False) (wait_overlay None)) link_home
          (parseUrl (example_env False))"
    by (simp add: example_defs)
  show ?thesis
    using h1 h2 untracked_interaction_no_effects [OF h1 h2, of click] by simp
qed

text \<open>
  C5 as stated fails. On a page whose hit filter throws, the composition throws for a
  link that \<open>shouldTrack\<close> accepts: the exception escapes the handler and no hit is
  sent.
\<close>

theorem send_exactly_once_counterexample:
  "opts (OutboundLinkTracker (example_env True) 0 (wait_overlay (Some veto)) fresh_page)
     = Some (assign_opts (example_env True) (wait_overlay (Some veto)))
   \<and> shouldTrack (assign_opts (example_env True) (wait_overlay (Some veto))) link_a
        (parseUrl (example_env True))
   \<and> out_error (handleLinkInteractions (example_env True) click link_a
        (OutboundLinkTracker (example_env True) 0 (wait_overlay (Some veto)) fresh_page))
       = Some (Thrown ''veto'')
   \<and> sent (out_state (handleLinkInteractions (example_env True) click link_a
        (OutboundLinkTracker (example_env True) 0 (wait_overlay (Some veto)) fresh_page)))
       = []"
  by (simp add: example_defs handleLinkInteractions_def fallback_block_def truthy_def
      nav_target_def defaultFields_def userFields_def)

text \<open>
  C5, amended. For a tracked interaction the composition is called on default fields
  with \<open>transport = beacon\<close>, \<open>eventCategory = Outbound Link\<close>, \<open>eventAction\<close> the event's
  type and \<open>eventLabel\<close> the link's href (and the \<open>hitCallback\<close> when the wait fallback
  applies), on the user fields \<open>fieldsObj\<close> overlaid with the link's attribute fields,
  and on the configured hit filter. If the composition returns a field set, \<open>send\<close> is
  called exactly once, with hit type \<open>event\<close> and that set; if it throws, the exception
  escapes and nothing is sent.
\<close>

theorem send_once_when_composed:
  assumes "opts s = Some cfg" and "tracker s = Some tr" and "shouldTrack cfg l (parseUrl env)"
  shows "let r = handleLinkInteractions env e l s;
             dflt = (if \<not> sendBeacon env \<and> fallback cfg = Some ''wait'' \<and> nav_target e l = None
                     then (defaultFields e l)(''hitCallback'' \<mapsto> Fn (length (closures s)))
                     else defaultFields e l);
             composed = createFieldsObj env dflt
                          (fieldsObj cfg ++ getAttributeFields env l (attributePrefix cfg))
                          tr (hitFilter cfg) (out_link r)
         in dflt ''transport'' = Some (Str ''beacon'')
          \<and> dflt ''eventCategory'' = Some (Str ''Outbound Link'')
          \<and> dflt ''eventAction'' = Some (Str (etype e))
          \<and> dflt ''eventLabel'' = Some (Str (href l))
          \<and> (case composed of
                Inr f \<Rightarrow> out_error r = None \<and> sent (out_state r) = sent s @ [(''event'', f)]
              | Inl x \<Rightarrow> out_error r = Some x \<and> sent (out_state r) = sent s)"
proof (cases "\<not> sendBeacon env \<and> fallback cfg = Some ''wait'' \<and> nav_target e l = None")
  case True
  then have w: "\<not> sendBeacon env" "fallback cfg = Some ''wait''" "nav_target e l = None"
    by simp_all
  show ?thesis
    unfolding Let_def handle_wait [OF assms w] if_P [OF True]
    by (simp add: defaultFields_def userFields_def split: sum.splits)
next
  case False
  show ?thesis
    unfolding Let_def handle_other [OF assms False] if_not_P [OF False]
    by (simp add: defaultFields_def userFields_def split: sum.splits)
qed

theorem send_once_when_composed_witness:
  "opts (wait_page None) = Some (assign_opts (example_env False) (wait_overlay None))
   \<and> tracker (wait_page None) = Some 0
   \<and> shouldTrack (assign_opts (example_env False) (wait_overlay None)) link_a
        (parseUrl (example_env False))
   \<and> out_error (handleLinkInteractions (example_env False) click link_a (wait_page None)) = None
   \<and> sent (out_state (handleLinkInteractions (example_env False) click link_a (wait_page None)))
       = [(''event'', [''transport'' \<mapsto> Str ''beacon'',
                       ''eventCategory'' \<mapsto> Str ''Outbound Link'',
                       ''eventAction'' \<mapsto> Str ''click'',
                       ''eventLabel'' \<mapsto> Str ''https://a.example/'',
                       ''hitCallback'' \<mapsto> Fn 0])]"
proof -
  have h1: "opts (wait_page None) = Some (assign_opts (example_env False) (wait_overlay None))"
    by (simp add: example_defs)
  have h2: "tracker (wait_page None) = Some 0"
    by (simp add: example_defs)
  have h3: "shouldTrack (assign_opts (example_env False) (wait_overlay None)) link_a
        (parseUrl (example_env False))"
    by (simp add: example_defs)
  show ?thesis
    using h1 h2 h3 send_once_when_composed [OF h1 h2 h3, of click]
    by (simp add: example_defs Let_def nav_target_def defaultFields_def)
qed

text \<open>
  C6 as stated fails. The scheme \<^verbatim>\<open>httpx:\<close> is neither http nor https, yet the predicate
  accepts a link with that scheme to another host.
\<close>

theorem shouldTrackOutboundLink_scheme_counterexample:
  "\<not> (shouldTrackOutboundLink ''example.com''
         \<lparr>href = ''httpx://c.example/'', target = [], attributes = []\<rparr> example_parse
       \<longleftrightarrow> hostname (example_parse ''httpx://c.example/'') \<noteq> ''example.com''
            \<and> spec_http_or_https (protocol (example_parse ''httpx://c.example/'')))"
  by (simp add: shouldTrackOutboundLink_def example_parse_def spec_http_or_https_def)

text \<open>
  C6, amended. The predicate holds if and only if the link's hostname differs from the
  page's and the first four characters of its protocol are \<^verbatim>\<open>http\<close>. So it holds for
  every http or https link to another host, for an http or https link it holds exactly
  when the hostnames differ, and it fails for every link to the page's own host.
\<close>

theorem shouldTrackOutboundLink_prefix:
  "(shouldTrackOutboundLink host l parse \<longleftrightarrow>
      hostname (parse (href l)) \<noteq> host \<and> take 4 (protocol (parse (href l))) = ''http'')
   \<and> (hostname (parse (href l)) \<noteq> host \<and> spec_http_or_https (protocol (parse (href l)))
        \<longrightarrow> shouldTrackOutboundLink host l parse)
   \<and> (spec_http_or_https (protocol (parse (href l))) \<longrightarrow>
        (shouldTrackOutboundLink host l parse \<longleftrightarrow> hostname (parse (href l)) \<noteq> host))
   \<and> (hostname (parse (href l)) = host \<longrightarrow> \<not> shouldTrackOutboundLink host l parse)"
  by (auto simp: shouldTrackOutboundLink_def spec_http_or_https_def Let_def)

theorem shouldTrackOutboundLink_prefix_witness:
  "hostname (example_parse (href link_a)) \<noteq> ''example.com''
   \<and> spec_http_or_https (protocol (example_parse (href link_a)))
   \<and> shouldTrackOutboundLink ''example.com'' link_a example_parse
   \<and> hostname (example_parse (href link_home)) = ''example.com''
   \<and> \<not> shouldTrackOutboundLink ''example.com'' link_home example_parse"
  using shouldTrackOutboundLink_prefix [of "''example.com''" link_a example_parse]
    shouldTrackOutboundLink_prefix [of "''example.com''" link_home example_parse]
  by (simp add: example_parse_def link_a_def link_home_def spec_http_or_https_def)

section \<open>Construction without event listeners\<close>

text \<open>
  C10. When \<^verbatim>\<open>window.addEventListener\<close> is missing, the constructor returns with \<open>opts\<close>,
  \<open>tracker\<close> and \<open>delegates\<close> unassigned and no listener attached. On such an instance
  \<^verbatim>\<open>remove()\<close> throws a type error on the undefined \<open>delegates\<close>, and the handler throws a
  type error on the undefined \<open>opts\<close>; neither returns normally.
\<close>

theorem unsupported_construction_then_throws:
  assumes "\<not> addEventListener env"
  shows "let s' = OutboundLinkTracker env tr ov s
         in opts s' = None \<and> tracker s' = None \<and> delegates s' = None
          \<and> listeners s' = listeners s
          \<and> remove s' = (Some (TypeError ''delegates''), s')
          \<and> handleLinkInteractions env e l s' =
              \<lparr>out_error = Some (TypeError ''opts''), out_event = e, out_link = l,
               out_state = s'\<rparr>"
  using assms
  by (simp add: OutboundLinkTracker_def Let_def remove_def handleLinkInteractions_def)

theorem unsupported_construction_then_throws_witness:
  "\<not> addEventListener ((example_env False)\<lparr>addEventListener := False\<rparr>)
   \<and> opts (OutboundLinkTracker ((example_env False)\<lparr>addEventListener := False\<rparr>) 0
        (wait_overlay None) fresh_page) = None
   \<and> fst (remove (OutboundLinkTracker ((example_env False)\<lparr>addEventListener := False\<rparr>) 0
        (wait_overlay None) fresh_page)) = Some (TypeError ''delegates'')
   \<and> out_error (handleLinkInteractions ((example_env False)\<lparr>addEventListener := False\<rparr>)
        click link_a (OutboundLinkTracker ((example_env False)\<lparr>addEventListener := False\<rparr>) 0
        (wait_overlay None) fresh_page)) = Some (TypeError ''opts'')"
proof -
  have h: "\<not> addEventListener ((example_env False)\<lparr>addEventListener := False\<rparr>)"
    by simp
  show ?thesis
    using h unsupported_construction_then_throws [OF h, of 0 "wait_overlay None" fresh_page
        click link_a]
    by (simp add: Let_def)
qed

section \<open>A hit callback runs once\<close>

lemma hitCallback_first:
  assumes "c < length (closures s)" and "closures s ! c = (l, False)"
  shows "hitCallback c s =
           s\<lparr>timers := clearTimeout (fallbackTimeout s) (timers s),
             closures := (closures s)[c := (l, True)],
             location := location s @ [href l]\<rparr>"
  using assms by (simp add: hitCallback_def)

lemma hitCallback_again: "has_run c l s \<Longrightarrow> hitCallback c s = s"
  by (simp add: has_run_def hitCallback_def)

lemma has_run_after_first:
  assumes "c < length (closures s)" and "closures s ! c = (l, False)"
  shows "has_run c l (hitCallback c s)"
  using assms by (simp add: hitCallback_first [OF assms] has_run_def)

lemma has_run_hitCallback: "has_run c l s \<Longrightarrow> has_run c l (hitCallback c' s)"
  by (cases "c' = c")
     (auto simp: has_run_def hitCallback_def split: prod.splits)

lemma fallback_block_closures:
  assumes "fallback_block env cfg tgt dflt e l s = (dflt', e', l', s')"
  shows "\<exists>xs. closures s' = closures s @ xs"
proof (cases "\<not> sendBeacon env \<and> fallback cfg = Some ''wait'' \<and> \<not> truthy tgt")
  case True
  then have w: "\<not> sendBeacon env" "fallback cfg = Some ''wait''" "\<not> truthy tgt" by simp_all
  from assms show ?thesis unfolding fallback_block_wait [OF w] by auto
next
  case False
  from assms show ?thesis unfolding fallback_block_other [OF False] by auto
qed

lemma handle_closures:
  "\<exists>xs. closures (out_state (handleLinkInteractions env e l s)) = closures s @ xs"
proof (cases "opts s")
  case None
  then show ?thesis by (simp add: handleLinkInteractions_def)
next
  case (Some cfg)
  show ?thesis
  proof (cases "shouldTrack cfg l (parseUrl env)")
    case False
    with Some show ?thesis by (simp add: handleLinkInteractions_def)
  next
    case True
    obtain dflt' e' l' s' where
      fb: "fallback_block env cfg (nav_target e l) (defaultFields e l) e l s = (dflt', e', l', s')"
      by (cases "fallback_block env cfg (nav_target e l) (defaultFields e l) e l s") auto
    from fallback_block_closures [OF fb] obtain xs where xs: "closures s' = closures s @ xs" ..
    have "closures (out_state (handleLinkInteractions env e l s)) = closures s'"
      using Some True fb
      by (simp add: handleLinkInteractions_def split: option.splits sum.splits)
    with xs show ?thesis by simp
  qed
qed

lemma has_run_append: "has_run c l s \<Longrightarrow> closures s' = closures s @ xs \<Longrightarrow> has_run c l s'"
  by (simp add: has_run_def nth_append)

lemma has_run_handle:
  "has_run c l s \<Longrightarrow> has_run c l (out_state (handleLinkInteractions env e l' s))"
  using handle_closures [of env e l' s] by (auto intro: has_run_append)

lemma has_run_listeners:
  "has_run c l s \<Longrightarrow>
   has_run c l (snd (snd (foldl (\<lambda>(e', l', s') (d, name, selector).
              if name = ty \<and> matches env l' selector then
                (let r = handleLinkInteractions env e' l' s'
                 in (out_event r, out_link r, out_state r))
              else (e', l', s')) (e, l0, s) ls)))"
proof (induction ls arbitrary: e l0 s)
  case Nil
  then show ?case by simp
next
  case (Cons x ls)
  obtain d name selector where x: "x = (d, name, selector)" by (cases x) auto
  show ?case
  proof (cases "name = ty \<and> matches env l0 selector")
    case True
    have "has_run c l (out_state (handleLinkInteractions env e l0 s))"
      using Cons.prems by (rule has_run_handle)
    from Cons.IH [OF this] True x show ?thesis by (simp add: Let_def)
  next
    case False
    from Cons.IH [OF Cons.prems] False x show ?thesis by auto
  qed
qed

lemma has_run_dispatch: "has_run c l s \<Longrightarrow> has_run c l (snd (snd (dispatch env e l0 s)))"
  unfolding dispatch_def by (rule has_run_listeners)

lemma has_run_elapse: "has_run c l s \<Longrightarrow> has_run c l (elapse_to t s)"
proof (induction t s rule: elapse_to.induct)
  case (1 t s)
  show ?case
  proof (cases "next_due t (timers s)")
    case None
    with "1.prems" show ?thesis by (simp add: elapse_to.simps [of t s] has_run_def)
  next
    case (Some x)
    obtain h c' d where x: "x = (h, c', d)" by (cases x) auto
    let ?s = "s\<lparr>now := max (now s) d, timers := filter (\<lambda>x. fst x \<noteq> h) (timers s)\<rparr>"
    have "has_run c l ?s" using "1.prems" by (simp add: has_run_def)
    then have "has_run c l (hitCallback c' ?s)" by (rule has_run_hitCallback)
    from "1.IH" [OF Some x [symmetric] refl this] Some x show ?thesis
      by (simp add: elapse_to.simps [of t s])
  qed
qed

lemma has_run_step: "has_run c l s \<Longrightarrow> has_run c l (step env s a)"
  by (cases a) (simp_all add: has_run_dispatch has_run_hitCallback has_run_elapse)

lemma has_run_run: "has_run c l s \<Longrightarrow> has_run c l (run env as s)"
  unfolding run_def by (induction as arbitrary: s) (simp_all add: has_run_step)

text \<open>
  The guard of the callback. Let \<open>c\<close> be the callback that \<^verbatim>\<open>createHitCallback\<close> made for the
  link \<open>l\<close>, in any later state \<open>s\<close> in which it has not been called. Its first call
  clears the timer whose handle \<open>fallbackTimeout\<close> holds at that moment, sets its flag
  and assigns the link's href to \<^verbatim>\<open>document.location\<close>. Two or more calls in a row leave
  the state the first call left. And after the first call, whatever else happens on
  the page (\<open>as\<close>: interactions, hits sent, time passing, further calls of \<open>c\<close>), a
  call of \<open>c\<close> changes nothing: the navigation is performed once.
\<close>

lemma hitCallback_runs_body_once:
  assumes "createHitCallback l s0 = (c, s1)"
    and "c < length (closures s)" and "closures s ! c = closures s1 ! c"
  shows "hitCallback c s =
           s\<lparr>timers := clearTimeout (fallbackTimeout s) (timers s),
             closures := (closures s)[c := (l, True)],
             location := location s @ [href l]\<rparr>
       \<and> (hitCallback c ^^ Suc (Suc n)) s = hitCallback c s
       \<and> hitCallback c (run env as (hitCallback c s)) = run env as (hitCallback c s)"
proof -
  from assms(1) have "closures s1 ! c = (l, False)"
    by (auto simp: createHitCallback_def)
  with assms(3) have cell: "closures s ! c = (l, False)" by simp
  have ran: "has_run c l (hitCallback c s)"
    using assms(2) cell by (rule has_run_after_first)
  have again: "(hitCallback c ^^ Suc k) s = hitCallback c s" for k
  proof (induction k)
    case 0
    show ?case by simp
  next
    case (Suc k)
    have "(hitCallback c ^^ Suc (Suc k)) s = hitCallback c ((hitCallback c ^^ Suc k) s)"
      by simp
    also have "\<dots> = hitCallback c (hitCallback c s)" by (simp only: Suc.IH)
    also have "\<dots> = hitCallback c s" using ran by (rule hitCallback_again)
    finally show ?case .
  qed
  have later: "hitCallback c (run env as (hitCallback c s)) = run env as (hitCallback c s)"
    using has_run_run [OF ran] by (rule hitCallback_again)
  from hitCallback_first [OF assms(2) cell] again [of "Suc n"] later show ?thesis
    by blast
qed

text \<open>
  C2. The claim: of two or more calls of one hit callback only the first has an
  effect, and that effect is to cancel the pending timer of the deferred navigation
  and to navigate. The guard holds (\<open>hitCallback_runs_body_once\<close>); the timer does not.
  On the sample page after two clicks timer 1 belongs to callback 0 and timer 2 to
  callback 1, and \<open>fallbackTimeout\<close> holds timer 2. The first hit is reported as sent:
  the first call of callback 0 navigates to the first link and clears timer 2, the
  other click's, while its own timer 1 stays pending. When timer 1 expires it calls
  callback 0 a second time, which does nothing.
\<close>

theorem first_call_clears_other_timer:
  "let env = example_env False;
       s2 = page_after_two_clicks;
       s3 = step env s2 (HitSent 0);
       s4 = step env s3 (Elapse 1000)
   in closures s2 = [(link_a, False), (link_b, False)]
    \<and> timers s2 = [(1, 0, 500), (2, 1, 600)]
    \<and> fallbackTimeout s2 = Some 2
    \<and> timers s3 = [(1, 0, 500)]
    \<and> closures s3 = [(link_a, True), (link_b, False)]
    \<and> location s3 = [''https://a.example/'']
    \<and> now s4 = 1100
    \<and> timers s4 = []
    \<and> closures s4 = [(link_a, True), (link_b, False)]
    \<and> location s4 = [''https://a.example/'']"
  by code_simp

section \<open>Two fallbacks pending at once\<close>

text \<open>
  Alone, the wait fallback does what it is for: when no other timer is pending, a
  tracked interaction that engages it is followed, \<open>fallbackWait\<close> milliseconds later,
  by the navigation to the link, whether the composition returned or threw and
  whether or not the hit is ever sent.
\<close>

lemma lone_wait_click_navigates:
  assumes "opts s = Some cfg" and "tracker s = Some tr" and "shouldTrack cfg l (parseUrl env)"
    and "\<not> sendBeacon env" and "fallback cfg = Some ''wait''" and "nav_target e l = None"
    and "timers s = []"
  shows "location (elapse_to (now s + fallbackWait cfg)
                     (out_state (handleLinkInteractions env e l s)))
           = location s @ [href l]"
  using assms(7)
  by (simp add: handle_wait [OF assms(1-6)] Let_def elapse_to.simps hitCallback_def
      clearTimeout_def nth_append split: sum.splits)

text \<open>
  C3. The claim: every interaction whose default action was prevented reaches its
  navigation within \<open>fallbackWait\<close> milliseconds, also when a second click comes while
  the first click's timer is pending. The code on the sample page (fallback \<open>wait\<close>, no
  beacon, \<open>fallbackWait = 500\<close>, no hit ever reported as sent): a click on the first link
  at 0 ms starts timer 1, a click on the second link at 100 ms starts timer 2 and
  overwrites \<open>fallbackTimeout\<close>. At 500 ms timer 1 fires; the first callback clears the
  timer in \<open>fallbackTimeout\<close>, which is timer 2, and navigates to the first link. Ten
  seconds later the second link's default action is still prevented, its callback has
  not run, no timer is pending, and \<^verbatim>\<open>document.location\<close> was assigned the first link only.
  The page is taken to stay alive after an assignment to \<^verbatim>\<open>document.location\<close>, as it
  does until the new document arrives, and for good when the address is a download.
\<close>

theorem second_click_navigation_lost:
  "let env = example_env False;
       s1 = step env (wait_page None) (Interact click link_a);
       s2 = step env s1 (Elapse 100);
       r = dispatch env click link_b s2;
       s3 = snd (snd r);
       s4 = step env s3 (Elapse 10000)
   in defaultPrevented (fst r)
    \<and> timers s3 = [(1, 0, 500), (2, 1, 600)]
    \<and> fallbackTimeout s3 = Some 2
    \<and> now s4 = 10100
    \<and> location s4 = [''https://a.example/'']
    \<and> closures s4 = [(link_a, True), (link_b, False)]
    \<and> timers s4 = []"
  by code_simp

text \<open>
  C8. The claim: when the composition throws in an interaction that engaged the wait
  fallback, the exception escapes and the navigation still happens after
  \<open>fallbackWait\<close> milliseconds. The first half holds (\<open>handle_wait\<close>), and so does the
  second for an interaction on its own (\<open>lone_wait_click_navigates\<close>). On the sample
  page with a hit filter that throws, two clicks 100 ms apart: the second call of the
  handler throws after it has prevented the default action and started timer 2; at
  500 ms the first callback clears timer 2; the second link is never navigated to, and
  its callback is in no hit.
\<close>

theorem composition_failure_navigation_lost:
  "let env = example_env False;
       s1 = step env (wait_page (Some veto)) (Interact click link_a);
       s2 = step env s1 (Elapse 100);
       r = handleLinkInteractions env click link_b s2;
       s3 = out_state r;
       s4 = step env s3 (Elapse 10000)
   in out_error r = Some (Thrown ''veto'')
    \<and> defaultPrevented (out_event r)
    \<and> timers s3 = [(1, 0, 500), (2, 1, 600)]
    \<and> fallbackTimeout s3 = Some 2
    \<and> now s4 = 10100
    \<and> location s4 = [''https://a.example/'']
    \<and> closures s4 = [(link_a, True), (link_b, False)]
    \<and> timers s4 = []
    \<and> map fst (sent s4) = []"
  by code_simp

section \<open>Teardown\<close>

text \<open>
  When the event names are distinct and none of them is \<^verbatim>\<open>__proto__\<close>, \<open>delegates\<close> holds
  every delegate the constructor made, \<^verbatim>\<open>remove()\<close> detaches them all, and an event on a
  link reaches no handler afterwards.
\<close>

lemma update_new_key: "k \<notin> fst ` set al \<Longrightarrow> AList.update k v al = al @ [(k, v)]"
  by (induction al) auto

lemma listeners_destroy: "listeners (destroy d s) = filter (\<lambda>x. fst x \<noteq> d) (listeners s)"
  by (simp add: destroy_def)

lemma destroy_all_listeners:
  "listeners (foldl (\<lambda>s' kd. destroy (snd kd) s') s ds)
     = filter (\<lambda>x. fst x \<notin> snd ` set ds) (listeners s)"
  by (induction ds arbitrary: s) (simp_all add: listeners_destroy)

lemma register_all_tracked:
  assumes "delegates s = Some ds" and "fst ` set (listeners s) \<subseteq> snd ` set ds"
    and "distinct names" and "set names \<inter> fst ` set ds = {}" and "''__proto__'' \<notin> set names"
  shows "\<exists>ds'. delegates (foldl (register sel) s names) = Some ds'
           \<and> fst ` set (listeners (foldl (register sel) s names)) \<subseteq> snd ` set ds'"
  using assms
proof (induction names arbitrary: s ds)
  case Nil
  then show ?case by simp
next
  case (Cons name names)
  let ?d = "next_delegate s"
  let ?s = "register sel s name"
  have new: "name \<notin> fst ` set ds" and np: "name \<noteq> ''__proto__''"
    using Cons.prems by auto
  have del: "delegates ?s = Some (ds @ [(name, ?d)])"
    using Cons.prems(1) new np
    by (simp add: register_def delegate_def set_property_def update_new_key)
  have lis: "listeners ?s = listeners s @ [(?d, name, sel)]"
    by (simp add: register_def delegate_def)
  have sub: "fst ` set (listeners ?s) \<subseteq> snd ` set (ds @ [(name, ?d)])"
    using Cons.prems(2) unfolding lis by auto
  have dis: "distinct names" and np': "''__proto__'' \<notin> set names"
    using Cons.prems by auto
  have fresh: "set names \<inter> fst ` set (ds @ [(name, ?d)]) = {}"
    using Cons.prems(3,4) by auto
  from Cons.IH [OF del sub dis fresh np'] show ?case by simp
qed

lemma dispatch_no_listeners: "listeners s = [] \<Longrightarrow> dispatch env e l s = (e, l, s)"
  by (simp add: dispatch_def)

lemma remove_detaches_distinct:
  assumes "addEventListener env" and "listeners s = []"
    and "distinct (events (assign_opts env ov))"
    and "''__proto__'' \<notin> set (events (assign_opts env ov))"
  shows "fst (remove (OutboundLinkTracker env tr ov s)) = None
       \<and> listeners (snd (remove (OutboundLinkTracker env tr ov s))) = []
       \<and> dispatch env e l (snd (remove (OutboundLinkTracker env tr ov s)))
           = (e, l, snd (remove (OutboundLinkTracker env tr ov s)))"
proof -
  let ?cfg = "assign_opts env ov"
  let ?s1 = "s\<lparr>opts := None, tracker := None, delegates := None, fallbackTimeout := None,
               usage := usage s @ [tr], opts := Some ?cfg, tracker := Some tr,
               delegates := Some []\<rparr>"
  have built: "OutboundLinkTracker env tr ov s = foldl (register (linkSelector ?cfg)) ?s1 (events ?cfg)"
    using assms(1) by (simp add: OutboundLinkTracker_def Let_def)
  have d0: "delegates ?s1 = Some []" by simp
  have l0: "fst ` set (listeners ?s1) \<subseteq> snd ` set []" using assms(2) by simp
  have f0: "set (events ?cfg) \<inter> fst ` set [] = {}" by simp
  from register_all_tracked [OF d0 l0 assms(3) f0 assms(4), of "linkSelector ?cfg"]
  obtain ds where ds: "delegates (OutboundLinkTracker env tr ov s) = Some ds"
    and sub: "fst ` set (listeners (OutboundLinkTracker env tr ov s)) \<subseteq> snd ` set ds"
    unfolding built by blast
  have ok: "fst (remove (OutboundLinkTracker env tr ov s)) = None"
    using ds by (simp add: remove_def)
  have "listeners (snd (remove (OutboundLinkTracker env tr ov s)))
      = filter (\<lambda>x. fst x \<notin> snd ` set ds) (listeners (OutboundLinkTracker env tr ov s))"
    using ds by (simp add: remove_def destroy_all_listeners)
  also have "\<dots> = []" using sub by (auto simp: filter_empty_conv)
  finally have none: "listeners (snd (remove (OutboundLinkTracker env tr ov s))) = []" .
  from ok none dispatch_no_listeners [OF none] show ?thesis by simp
qed

text \<open>
  C9. The claim: after \<^verbatim>\<open>remove()\<close> every listener attached by the constructor is
  detached and clicks send no hit. The code for \<^verbatim>\<open>events: ['click', 'click']\<close>: the
  constructor attaches two listeners and the second assignment to
  \<^verbatim>\<open>this.delegates['click']\<close> replaces the first delegate; \<^verbatim>\<open>remove()\<close> destroys the one
  that is left in \<open>delegates\<close>, the first listener stays attached, and a click on a
  foreign link after \<^verbatim>\<open>remove()\<close> sends a hit.
\<close>

theorem duplicate_event_name_keeps_listener:
  "let env = example_env True;
       s0 = OutboundLinkTracker env 0
              ((wait_overlay None)\<lparr>ov_events := Some [''click'', ''click'']\<rparr>) fresh_page;
       r = remove s0;
       s1 = step env (snd r) (Interact click link_a)
   in listeners s0 = [(0, ''click'', ''a''), (1, ''click'', ''a'')]
    \<and> delegates s0 = Some [(''click'', 1)]
    \<and> fst r = None
    \<and> listeners (snd r) = [(0, ''click'', ''a'')]
    \<and> map fst (sent (snd r)) = []
    \<and> map fst (sent s1) = [''event'']"
  by code_simp

end
